theory Spec2Isabelle
  imports Main
begin

section \<open>The batch workflow orchestrator of \<^verbatim>\<open>src/app/flow_scheduler.py\<close>\<close>

text \<open>
  The scheduler polls a batch source, creates one card per new batch, runs the card
  through the chain import, generate, map, post, and records the batch as processed.
  Python objects become records, the dictionaries returned by the stage functions become
  records of optional fields (a key that is absent is \<open>None\<close>), an exception raised by
  an injected callable becomes the left summand of its result (carrying \<open>str(exc)\<close>),
  and every mutation becomes explicit state passing.
\<close>

subsection \<open>Data model\<close>

text \<open>The JSON-like payloads (\<open>Dict\<close>) passed from one stage to the next.\<close>

datatype json =
    JNull
  | JBool bool
  | JInt int
  | JStr string
  | JList "json list"
  | JDict "(string \<times> json) list"

type_synonym pydict = "(string \<times> json) list"

record CarCard =
  card_id :: string
  batch_id :: string
  status :: string
  photo_files :: "string list"
  photo_urls :: "string list"
  template_id :: string
  ai_result :: "pydict option"
  mapped_avito :: "pydict option"
  post_url :: "string option"
  logs :: "string list"
  errors :: "string list"

record NeedActionItem =
  na_card_id :: string
  na_batch_id :: string
  reason :: string
  requires_manual_confirmation :: bool

record PublicationRecord =
  pub_card_id :: string
  pub_batch_id :: string
  pub_post_url :: "string option"
  pub_status :: string
  published_at :: string

record FlowState =
  cards :: "string \<rightharpoonup> CarCard"
  need_action :: "NeedActionItem list"
  history :: "PublicationRecord list"
  processed_batches :: "string set"

text \<open>
  The code reads the wall clock (\<open>time.time()\<close>, \<open>datetime.now\<close>). The state the
  scheduler runs on is the \<open>FlowState\<close> together with the number of clock readings made
  so far; the \<open>n\<close>-th reading is \<open>clock s n\<close>, any sequence of seconds whatever.
\<close>

record world = FlowState +
  reads :: nat

text \<open>The result dictionaries of the four stage functions.\<close>

record photo_result =
  pr_photo_files :: "string list option"
  pr_photo_urls :: "string list option"

record ai_response =
  ar_status :: "string option"
  ar_ai_result :: "pydict option"
  ar_errors :: "string list option"

record mapped_response =
  mr_status :: "string option"
  mr_mapped_avito :: "pydict option"
  mr_errors :: "string list option"

record post_response =
  po_status :: "string option"
  po_post_url :: "string option"
  po_errors :: "string list option"

text \<open>
  \<open>FlowScheduler\<close>: the injected callables, each a function of its arguments that
  returns \<open>Inl (str exc)\<close> when it raises an \<open>Exception\<close> (what \<open>_run_chain\<close>
  catches), and the environment of the process: the clock, in whole seconds
  (\<open>int(time.time())\<close>; the log timestamps are cut to seconds as well), and the
  library's \<open>isoformat\<close>, which the code only passes through. \<open>fetch_batches\<close> takes
  no argument, so it is the result of the call. The field \<open>state\<close> of the source is the
  \<open>world\<close> argument of the functions below.
\<close>

record FlowScheduler =
  interval_minutes :: int
  fetch_batches :: "string + string list"
  import_photos :: "string \<Rightarrow> string + photo_result"
  ai_client :: "string list \<Rightarrow> string \<Rightarrow> string + ai_response"
  mapper :: "pydict \<Rightarrow> string list \<Rightarrow> string + mapped_response"
  poster :: "pydict \<Rightarrow> string list \<Rightarrow> string + post_response"
  clock :: "nat \<Rightarrow> int"
  isoformat :: "int \<Rightarrow> string"

subsection \<open>Python's string operations\<close>

text \<open>Decimal digits; \<open>digit_char\<close> is applied to numbers below 10 only.\<close>

definition digit_char :: "nat \<Rightarrow> char" where
  "digit_char d = ''0123456789'' ! d"

fun str_nat :: "nat \<Rightarrow> string" where
  "str_nat n = (if n < 10 then [digit_char n] else str_nat (n div 10) @ [digit_char (n mod 10)])"

declare str_nat.simps [simp del]

text \<open>\<open>str(i)\<close> of a Python integer.\<close>

definition py_str :: "int \<Rightarrow> string" where
  "py_str i = (if i < 0 then CHR ''-'' # str_nat (nat (- i)) else str_nat (nat i))"

text \<open>\<open>sep.join(xs)\<close>.\<close>

fun join :: "string \<Rightarrow> string list \<Rightarrow> string" where
  "join sep [] = []"
| "join sep [x] = x"
| "join sep (x # y # ys) = x @ sep @ join sep (y # ys)"

text \<open>\<open>d.get(key, [])\<close> and \<open>d or {}\<close>.\<close>

definition get_list :: "'a list option \<Rightarrow> 'a list" where
  "get_list v = (case v of None \<Rightarrow> [] | Some xs \<Rightarrow> xs)"

definition or_empty :: "pydict option \<Rightarrow> pydict" where
  "or_empty v = (case v of None \<Rightarrow> [] | Some d \<Rightarrow> d)"

text \<open>\<open>"; ".join(errors) or fallback\<close>: the fallback stands in for an empty string.\<close>

definition reason_of :: "string list \<Rightarrow> string \<Rightarrow> string" where
  "reason_of errs fallback = (if join ''; '' errs = [] then fallback else join ''; '' errs)"

subsection \<open>Card and state operations\<close>

definition time_now :: "FlowScheduler \<Rightarrow> world \<Rightarrow> int" where
  "time_now s w = clock s (reads w)"

definition tick :: "world \<Rightarrow> world" where
  "tick w = w\<lparr>reads := Suc (reads w)\<rparr>"

text \<open>\<open>CarCard.log\<close>: one clock reading, one line appended.\<close>

definition card_log :: "FlowScheduler \<Rightarrow> string \<Rightarrow> CarCard \<Rightarrow> world \<Rightarrow> CarCard \<times> world" where
  "card_log s message c w =
     (c\<lparr>logs := logs c @ [isoformat s (time_now s w) @ '' '' @ message]\<rparr>, tick w)"

definition add_history :: "FlowScheduler \<Rightarrow> CarCard \<Rightarrow> world \<Rightarrow> world" where
  "add_history s c w =
     tick (w\<lparr>history := history w @
       [\<lparr>pub_card_id = card_id c, pub_batch_id = batch_id c,
         pub_post_url = post_url c, pub_status = status c,
         published_at = isoformat s (time_now s w)\<rparr>]\<rparr>)"

definition add_need_action :: "CarCard \<Rightarrow> string \<Rightarrow> 'a FlowState_scheme \<Rightarrow> 'a FlowState_scheme" where
  "add_need_action c rsn st =
     st\<lparr>need_action := need_action st @
       [\<lparr>na_card_id = card_id c, na_batch_id = batch_id c, reason = rsn,
         requires_manual_confirmation = True\<rparr>]\<rparr>"

text \<open>\<open>resolve_need_action\<close> returns its boolean together with the updated state.\<close>

definition resolve_need_action :: "string \<Rightarrow> 'a FlowState_scheme \<Rightarrow> bool \<times> 'a FlowState_scheme" where
  "resolve_need_action cid st =
     (let before = length (need_action st);
          st' = st\<lparr>need_action := filter (\<lambda>item. na_card_id item \<noteq> cid) (need_action st)\<rparr>
      in (length (need_action st') < before, st'))"

text \<open>\<open>_now_id\<close>: the caller accounts for the clock reading.\<close>

definition now_id :: "FlowScheduler \<Rightarrow> string \<Rightarrow> int \<Rightarrow> world \<Rightarrow> string" where
  "now_id s prefix index w = prefix @ ''_'' @ py_str (time_now s w) @ ''_'' @ py_str index"

definition new_card :: "string \<Rightarrow> string \<Rightarrow> CarCard" where
  "new_card cid b =
     \<lparr>card_id = cid, batch_id = b, status = ''NEW'', photo_files = [], photo_urls = [],
      template_id = ''sale'', ai_result = None, mapped_avito = None, post_url = None,
      logs = [], errors = []\<rparr>"

text \<open>
  \<open>_ensure_card\<close>. The card is one object, held by the local variable and by
  \<open>state.cards\<close>; the model passes the card as a value and stores it under its id.
\<close>

definition ensure_card :: "FlowScheduler \<Rightarrow> string \<Rightarrow> int \<Rightarrow> world \<Rightarrow> CarCard \<times> world" where
  "ensure_card s b index w =
     (let cid = now_id s ''card'' index w;
          (c, w') = card_log s ''Card created'' (new_card cid b) (tick w)
      in (c, w'\<lparr>cards := (cards w')(cid \<mapsto> c)\<rparr>))"

subsection \<open>The stage chain\<close>

text \<open>The \<open>except Exception\<close> handler of \<open>_run_chain\<close>.\<close>

definition chain_failed :: "string \<Rightarrow> CarCard \<Rightarrow> CarCard" where
  "chain_failed exc c = c\<lparr>status := ''FAILED'', errors := errors c @ [exc]\<rparr>"

text \<open>A diversion to the manual-action queue (the same three statements in each stage).\<close>

definition divert :: "string list \<Rightarrow> string \<Rightarrow> CarCard \<Rightarrow> world \<Rightarrow> CarCard \<times> world" where
  "divert errs fallback c w =
     (let c' = c\<lparr>status := ''NEED_ACTION'', errors := errors c @ errs\<rparr>
      in (c', add_need_action c' (reason_of errs fallback) w))"

text \<open>Lines 127 to 143: the posting stage.\<close>

definition post_stage :: "FlowScheduler \<Rightarrow> CarCard \<Rightarrow> world \<Rightarrow> CarCard \<times> world" where
  "post_stage s c0 w0 =
     (let (c, w) = card_log s ''Posting to Avito'' c0 w0 in
      case poster s (or_empty (mapped_avito c)) (photo_files c) of
        Inl exc \<Rightarrow> (chain_failed exc c, w)
      | Inr r \<Rightarrow>
          let c1 = c\<lparr>post_url := po_post_url r\<rparr> in
          if po_status r = Some ''POSTED'' then
            (let c2 = c1\<lparr>status := ''POSTED''\<rparr> in (c2, add_history s c2 w))
          else if po_status r = Some ''NEED_ACTION'' then
            divert (get_list (po_errors r)) ''Captcha or manual confirmation required'' c1 w
          else
            (c1\<lparr>status := ''FAILED'', errors := errors c1 @ get_list (po_errors r)\<rparr>, w))"

text \<open>Lines 116 to 125: the mapping stage, then the posting stage.\<close>

definition map_stage :: "FlowScheduler \<Rightarrow> CarCard \<Rightarrow> world \<Rightarrow> CarCard \<times> world" where
  "map_stage s c0 w0 =
     (let (c, w) = card_log s ''Mapping to Avito'' c0 w0 in
      case mapper s (or_empty (ai_result c)) (photo_files c) of
        Inl exc \<Rightarrow> (chain_failed exc c, w)
      | Inr r \<Rightarrow>
          if mr_status r = Some ''NEED_ACTION'' then
            divert (get_list (mr_errors r)) ''Mapping failed'' c w
          else
            post_stage s (c\<lparr>mapped_avito := mr_mapped_avito r, status := ''READY_TO_POST''\<rparr>) w)"

text \<open>Lines 105 to 114: the generation stage, then the rest of the chain.\<close>

definition ai_stage :: "FlowScheduler \<Rightarrow> CarCard \<Rightarrow> world \<Rightarrow> CarCard \<times> world" where
  "ai_stage s c0 w0 =
     (let (c, w) = card_log s ''Running AI'' c0 w0 in
      case ai_client s (photo_files c) (template_id c) of
        Inl exc \<Rightarrow> (chain_failed exc c, w)
      | Inr r \<Rightarrow>
          if ar_status r = Some ''NEED_ACTION'' then
            divert (get_list (ar_errors r)) ''AI validation failed'' c w
          else
            map_stage s (c\<lparr>ai_result := ar_ai_result r, status := ''AI_READY''\<rparr>) w)"

text \<open>\<open>_run_chain\<close>: the import stage (lines 99 to 103), then the rest of the chain.\<close>

definition run_chain :: "FlowScheduler \<Rightarrow> CarCard \<Rightarrow> world \<Rightarrow> CarCard \<times> world" where
  "run_chain s c0 w0 =
     (let (c, w) = card_log s ''Importing photos'' c0 w0 in
      case import_photos s (batch_id c) of
        Inl exc \<Rightarrow> (chain_failed exc c, w)
      | Inr r \<Rightarrow>
          ai_stage s (c\<lparr>photo_files := get_list (pr_photo_files r),
                           photo_urls := get_list (pr_photo_urls r),
                           status := ''PHOTOS_READY''\<rparr>) w)"

subsection \<open>The scheduler\<close>

definition new_batch_ids :: "string list \<Rightarrow> 'a FlowState_scheme \<Rightarrow> string list" where
  "new_batch_ids batch_ids st = filter (\<lambda>b. b \<notin> processed_batches st) batch_ids"

text \<open>The body of the loop of \<open>run_once\<close>; the card the chain mutated is the one stored.\<close>

definition process_batch :: "FlowScheduler \<Rightarrow> int \<Rightarrow> string \<Rightarrow> world \<Rightarrow> world" where
  "process_batch s index b w0 =
     (let (c, w) = ensure_card s b index w0;
          (c', w') = run_chain s c w
      in w'\<lparr>cards := (cards w')(card_id c' \<mapsto> c'),
             processed_batches := insert b (processed_batches w')\<rparr>)"

text \<open>The loop \<open>for index, batch_id in enumerate(new_batch_ids, start=1)\<close>, from position \<open>index\<close> on.\<close>

fun process_batches :: "FlowScheduler \<Rightarrow> int \<Rightarrow> string list \<Rightarrow> world \<Rightarrow> world" where
  "process_batches s index [] w = w"
| "process_batches s index (b # bs) w = process_batches s (index + 1) bs (process_batch s index b w)"

text \<open>
  \<open>run_once\<close>. An exception of \<open>fetch_batches\<close> is not caught: it leaves
  \<open>run_once\<close> before anything is written, so \<open>Inl\<close> stands for the raise with the
  state as it was.
\<close>

definition run_once :: "FlowScheduler \<Rightarrow> world \<Rightarrow> string + world" where
  "run_once s w =
     (case fetch_batches s of
        Inl exc \<Rightarrow> Inl exc
      | Inr batch_ids \<Rightarrow> Inr (process_batches s 1 (new_batch_ids batch_ids w) w))"

text \<open>
  A sequence of \<open>run_once\<close> calls on one state, the \<open>k\<close>-th made with the \<open>k\<close>-th
  scheduler of the list, so that the batch source and the stages may answer differently
  from one cycle to the next. A raise of the batch source ends the sequence, as it ends
  the loops of \<open>run_cycles\<close> and \<open>run_forever\<close>, which call \<open>run_once\<close> and sleep
  in turn.
\<close>

fun run_seq :: "FlowScheduler list \<Rightarrow> world \<Rightarrow> string + world" where
  "run_seq [] w = Inr w"
| "run_seq (s # ss) w = (case run_once s w of Inl exc \<Rightarrow> Inl exc | Inr w' \<Rightarrow> run_seq ss w')"

subsection \<open>Observations used by the theorems\<close>

text \<open>
  The status with which a new card for batch \<open>b\<close> leaves \<open>_run_chain\<close>. The stage
  functions receive the batch id, the photo files and the payloads, never the card id or
  the clock, so the card id and the state the chain starts from do not matter here.
\<close>

definition chain_status :: "FlowScheduler \<Rightarrow> string \<Rightarrow> string" where
  "chain_status s b =
     status (fst (run_chain s (new_card [] b)
       \<lparr>cards = Map.empty, need_action = [], history = [], processed_batches = {}, reads = 0\<rparr>))"

text \<open>
  The exception, if any, that a stage function raises during the chain of a new card
  for batch \<open>b\<close>: the calls are those of \<open>_run_chain\<close>, in its order, and a stage
  is reached only if no earlier stage raised or diverted the card.
\<close>

definition chain_exception :: "FlowScheduler \<Rightarrow> string \<Rightarrow> string option" where
  "chain_exception s b =
     (case import_photos s b of
        Inl exc \<Rightarrow> Some exc
      | Inr pr \<Rightarrow>
          (case ai_client s (get_list (pr_photo_files pr)) ''sale'' of
             Inl exc \<Rightarrow> Some exc
           | Inr ar \<Rightarrow>
               if ar_status ar = Some ''NEED_ACTION'' then None
               else (case mapper s (or_empty (ar_ai_result ar)) (get_list (pr_photo_files pr)) of
                  Inl exc \<Rightarrow> Some exc
                | Inr mr \<Rightarrow>
                    if mr_status mr = Some ''NEED_ACTION'' then None
                    else (case poster s (or_empty (mr_mapped_avito mr)) (get_list (pr_photo_files pr)) of
                       Inl exc \<Rightarrow> Some exc
                     | Inr po \<Rightarrow> None))))"

text \<open>
  The ids that \<open>_ensure_card\<close> assigns in the loop of \<open>run_once\<close>, in the order of
  the loop, and the ids a call of \<open>run_once\<close> assigns: the record of the cards a cycle
  creates, which the code itself keeps only as keys of \<open>cards\<close>.
\<close>

fun created_ids :: "FlowScheduler \<Rightarrow> int \<Rightarrow> string list \<Rightarrow> world \<Rightarrow> string list" where
  "created_ids s index [] w = []"
| "created_ids s index (b # bs) w =
     now_id s ''card'' index w # created_ids s (index + 1) bs (process_batch s index b w)"

definition new_card_ids :: "FlowScheduler \<Rightarrow> world \<Rightarrow> string list" where
  "new_card_ids s w =
     (case fetch_batches s of
        Inl exc \<Rightarrow> []
      | Inr batch_ids \<Rightarrow> created_ids s 1 (new_batch_ids batch_ids w) w)"

text \<open>The batch and the status of the card stored under an id.\<close>

definition card_summary :: "'a FlowState_scheme \<Rightarrow> string \<Rightarrow> (string \<times> string) option" where
  "card_summary st cid = (case cards st cid of None \<Rightarrow> None | Some c \<Rightarrow> Some (batch_id c, status c))"

text \<open>What a finished run stores: the batch of the card under an id, and the ids in use.\<close>

definition batch_of_card :: "string + world \<Rightarrow> string \<Rightarrow> string option" where
  "batch_of_card r cid = (case r of Inl exc \<Rightarrow> None | Inr w \<Rightarrow> map_option batch_id (cards w cid))"

definition stored_ids :: "string + world \<Rightarrow> string set" where
  "stored_ids r = (case r of Inl exc \<Rightarrow> {} | Inr w \<Rightarrow> dom (cards w))"

subsection \<open>Concrete schedulers\<close>

definition empty_world :: world where
  "empty_world =
     \<lparr>cards = Map.empty, need_action = [], history = [], processed_batches = {}, reads = 0\<rparr>"

text \<open>
  A scheduler in the manner of \<open>flow_smoke.py\<close>: the importer returns the batch id as
  the only photo file, so that the later stages can tell the batches apart as the smoke
  test's poster does, and \<open>plan\<close> says how the stages treat each batch. The clock stands
  still at second 100, as it does for cycles that follow each other at once
  (\<open>interval_minutes = 0\<close>).
\<close>

definition demo_sched :: "(string \<Rightarrow> string) \<Rightarrow> string list \<Rightarrow> FlowScheduler" where
  "demo_sched plan bs =
     \<lparr>interval_minutes = 0,
      fetch_batches = Inr bs,
      import_photos = (\<lambda>b.
        if plan b = ''import raises'' then Inl ''source unreachable''
        else Inr \<lparr>pr_photo_files = Some [b], pr_photo_urls = Some [''https://photo/'' @ b]\<rparr>),
      ai_client = (\<lambda>fs t.
        if plan (concat fs) = ''ai raises'' then Inl ''ai timeout''
        else if plan (concat fs) = ''ai need action'' then
          Inr \<lparr>ar_status = Some ''NEED_ACTION'', ar_ai_result = None,
               ar_errors = Some [''no title'', ''no price'']\<rparr>
        else if plan (concat fs) = ''odd statuses'' then
          Inr \<lparr>ar_status = Some ''FAILED'', ar_ai_result = Some [(''title'', JStr ''Demo car'')],
               ar_errors = None\<rparr>
        else
          Inr \<lparr>ar_status = Some ''AI_READY'', ar_ai_result = Some [(''title'', JStr ''Demo car'')],
               ar_errors = None\<rparr>),
      mapper = (\<lambda>d fs.
        if plan (concat fs) = ''map raises'' then Inl ''bad schema''
        else if plan (concat fs) = ''map need action'' then
          Inr \<lparr>mr_status = Some ''NEED_ACTION'', mr_mapped_avito = None, mr_errors = None\<rparr>
        else if plan (concat fs) = ''odd statuses'' then
          Inr \<lparr>mr_status = None, mr_mapped_avito = Some d, mr_errors = None\<rparr>
        else
          Inr \<lparr>mr_status = Some ''READY_TO_POST'', mr_mapped_avito = Some d, mr_errors = None\<rparr>),
      poster = (\<lambda>d fs.
        if plan (concat fs) = ''post raises'' then Inl ''browser crashed''
        else if plan (concat fs) = ''post need action'' then
          Inr \<lparr>po_status = Some ''NEED_ACTION'', po_post_url = None,
               po_errors = Some [''Captcha required'']\<rparr>
        else if plan (concat fs) = ''post need action with url'' then
          Inr \<lparr>po_status = Some ''NEED_ACTION'', po_post_url = Some ''https://avito.ru/draft'',
               po_errors = Some [''Captcha required'']\<rparr>
        else if plan (concat fs) = ''post failed'' then
          Inr \<lparr>po_status = Some ''FAILED'', po_post_url = None,
               po_errors = Some [''Posting failed'']\<rparr>
        else
          Inr \<lparr>po_status = Some ''POSTED'',
               po_post_url = Some (''https://avito.ru/item/'' @ concat fs), po_errors = Some []\<rparr>),
      clock = (\<lambda>n. 100),
      isoformat = (\<lambda>t. ''T'' @ py_str t)\<rparr>"

definition const_plan :: "string \<Rightarrow> string \<Rightarrow> string" where
  "const_plan tag b = tag"

definition mixed_plan :: "string \<Rightarrow> string" where
  "mixed_plan b =
     (if b = ''batch_2'' then ''import raises''
      else if b = ''batch_4'' then ''post need action''
      else ''posted'')"

definition three_batches :: "string list" where
  "three_batches = [''batch_1'', ''batch_2'', ''batch_3'']"

definition demo_card :: CarCard where
  "demo_card = new_card ''card_100_1'' ''batch_1''"

definition demo_queue :: world where
  "demo_queue = empty_world\<lparr>need_action :=
     [\<lparr>na_card_id = ''card_100_1'', na_batch_id = ''batch_1'', reason = ''Captcha required'',
        requires_manual_confirmation = True\<rparr>,
      \<lparr>na_card_id = ''card_100_2'', na_batch_id = ''batch_2'', reason = ''Mapping failed'',
        requires_manual_confirmation = True\<rparr>,
      \<lparr>na_card_id = ''card_100_1'', na_batch_id = ''batch_1'', reason = ''AI validation failed'',
        requires_manual_confirmation = True\<rparr>]\<rparr>"

section \<open>Properties\<close>

subsection \<open>Decimal numerals and card ids\<close>

lemma digit_char_in: "d < 10 \<Longrightarrow> digit_char d \<in> set ''0123456789''"
proof -
  assume "d < 10"
  then have "d \<in> {0,1,2,3,4,5,6,7,8,9}" by auto
  then show ?thesis by (auto simp: digit_char_def)
qed

lemma digit_char_inj: "d < 10 \<Longrightarrow> e < 10 \<Longrightarrow> digit_char d = digit_char e \<Longrightarrow> d = e"
proof -
  assume "d < 10" "e < 10" and eq: "digit_char d = digit_char e"
  then have "d \<in> {0,1,2,3,4,5,6,7,8,9}" "e \<in> {0,1,2,3,4,5,6,7,8,9}" by auto
  with eq show ?thesis by (auto simp: digit_char_def)
qed

lemma str_nat_digits: "set (str_nat n) \<subseteq> set ''0123456789''"
proof (induction n rule: str_nat.induct)
  case (1 n)
  show ?case
  proof (cases "n < 10")
    case True
    then show ?thesis using digit_char_in [of n] by (subst str_nat.simps) simp
  next
    case False
    have "n mod 10 < 10" by simp
    then have "digit_char (n mod 10) \<in> set ''0123456789''" by (rule digit_char_in)
    with False 1 show ?thesis by (subst str_nat.simps) simp
  qed
qed

lemma str_nat_not_Nil: "str_nat n \<noteq> []"
  by (subst str_nat.simps) simp

lemma str_nat_inj: "str_nat n = str_nat m \<Longrightarrow> n = m"
proof (induction n arbitrary: m rule: str_nat.induct)
  case (1 n)
  show ?case
  proof (cases "n < 10")
    case n: True
    show ?thesis
    proof (cases "m < 10")
      case True
      with n 1(2) show ?thesis
        by (simp add: str_nat.simps [of n] str_nat.simps [of m] digit_char_inj)
    next
      case False
      with n 1(2) show ?thesis
        using str_nat_not_Nil [of "m div 10"]
        by (simp add: str_nat.simps [of n] str_nat.simps [of m])
    qed
  next
    case n: False
    show ?thesis
    proof (cases "m < 10")
      case True
      with n 1(2) show ?thesis
        using str_nat_not_Nil [of "n div 10"]
        by (simp add: str_nat.simps [of n] str_nat.simps [of m])
    next
      case False
      with n 1(2) have a: "str_nat (n div 10) = str_nat (m div 10)"
        and b: "digit_char (n mod 10) = digit_char (m mod 10)"
        by (simp_all add: str_nat.simps [of n] str_nat.simps [of m])
      from a n have "n div 10 = m div 10" by (rule 1(1) [rotated])
      moreover from b have "n mod 10 = m mod 10" by (intro digit_char_inj) simp_all
      ultimately show ?thesis by (metis div_mult_mod_eq)
    qed
  qed
qed

lemma py_str_no_underscore: "CHR ''_'' \<notin> set (py_str i)"
  using str_nat_digits [of "nat i"] str_nat_digits [of "nat (- i)"]
  by (auto simp: py_str_def)

lemma str_nat_no_minus: "str_nat n \<noteq> CHR ''-'' # xs"
  using str_nat_digits [of n] by auto

lemma py_str_inj: "py_str i = py_str j \<Longrightarrow> i = j"
  using str_nat_inj [of "nat i" "nat j"] str_nat_inj [of "nat (- i)" "nat (- j)"]
    str_nat_no_minus [of "nat i"] str_nat_no_minus [of "nat j"]
  by (auto simp: py_str_def split: if_splits) (metis)+

lemma now_id_inj:
  "p @ ''_'' @ py_str t @ ''_'' @ py_str i = p @ ''_'' @ py_str t' @ ''_'' @ py_str i' \<Longrightarrow> t = t' \<and> i = i'"
proof -
  assume "p @ ''_'' @ py_str t @ ''_'' @ py_str i = p @ ''_'' @ py_str t' @ ''_'' @ py_str i'"
  then have "py_str t @ CHR ''_'' # py_str i = py_str t' @ CHR ''_'' # py_str i'" by simp
  then have "py_str t = py_str t' \<and> py_str i = py_str i'"
    using py_str_no_underscore [of t] py_str_no_underscore [of i]
    by (simp add: append_Cons_eq_iff)
  then show ?thesis by (auto dest: py_str_inj)
qed

subsection \<open>The stage chain\<close>

lemmas chain_defs = run_chain_def ai_stage_def map_stage_def post_stage_def divert_def
      chain_failed_def card_log_def add_need_action_def add_history_def tick_def Let_def

lemma run_chain_ids:
  "card_id (fst (run_chain s c w)) = card_id c" "batch_id (fst (run_chain s c w)) = batch_id c"
  by (simp_all add: chain_defs split: sum.splits prod.splits)

lemma run_chain_frame:
  "cards (snd (run_chain s c w)) = cards w"
  "processed_batches (snd (run_chain s c w)) = processed_batches w"
  by (simp_all add: chain_defs split: sum.splits prod.splits)

lemma run_chain_status_indep:
  "batch_id c = batch_id c' \<Longrightarrow> template_id c = template_id c' \<Longrightarrow>
   status (fst (run_chain s c w)) = status (fst (run_chain s c' w'))"
  by (simp add: chain_defs split: sum.splits prod.splits)

lemma run_chain_status: "batch_id c = b \<Longrightarrow> template_id c = ''sale'' \<Longrightarrow> status (fst (run_chain s c w)) = chain_status s b"
  unfolding chain_status_def by (rule run_chain_status_indep) (simp_all add: new_card_def)

lemma run_chain_history:
  "map pub_batch_id (history (snd (run_chain s c w))) =
     map pub_batch_id (history w) @ (if status (fst (run_chain s c w)) = ''POSTED'' then [batch_id c] else [])"
  by (simp add: chain_defs split: sum.splits prod.splits)

lemma chain_exception_failed: "chain_exception s b = Some e \<Longrightarrow> chain_status s b = ''FAILED''"
  by (auto simp: chain_exception_def chain_status_def new_card_def chain_defs
      split: sum.splits if_splits)

lemma chain_status_cong:
  "import_photos s' = import_photos s \<Longrightarrow> ai_client s' = ai_client s \<Longrightarrow> mapper s' = mapper s \<Longrightarrow>
   poster s' = poster s \<Longrightarrow> chain_status s' b = chain_status s b"
  by (simp add: chain_status_def new_card_def chain_defs split: sum.splits prod.splits)

subsection \<open>The loop of \<open>run_once\<close>\<close>

lemma ensure_card_fields:
  "card_id (fst (ensure_card s b i w)) = now_id s ''card'' i w"
  "batch_id (fst (ensure_card s b i w)) = b"
  "template_id (fst (ensure_card s b i w)) = ''sale''"
  "processed_batches (snd (ensure_card s b i w)) = processed_batches w"
  "history (snd (ensure_card s b i w)) = history w"
  "need_action (snd (ensure_card s b i w)) = need_action w"
  "cards (snd (ensure_card s b i w)) = (cards w)(now_id s ''card'' i w \<mapsto> fst (ensure_card s b i w))"
  by (simp_all add: ensure_card_def card_log_def new_card_def tick_def Let_def)

lemma process_batch_processed:
  "processed_batches (process_batch s i b w) = insert b (processed_batches w)"
  by (simp add: process_batch_def Let_def split: prod.splits)
     (metis ensure_card_fields(4) run_chain_frame(2) snd_conv)

lemma process_batch_history:
  "map pub_batch_id (history (process_batch s i b w)) =
     map pub_batch_id (history w) @ (if chain_status s b = ''POSTED'' then [b] else [])"
proof -
  obtain c w1 where e: "ensure_card s b i w = (c, w1)" by (cases "ensure_card s b i w")
  obtain c' w2 where r: "run_chain s c w1 = (c', w2)" by (cases "run_chain s c w1")
  from e have c: "batch_id c = b" "template_id c = ''sale''" "history w1 = history w"
    using ensure_card_fields [of s b i w] by simp_all
  from r c have "status c' = chain_status s b"
    using run_chain_status [of c b s w1] by simp
  moreover from r have "map pub_batch_id (history w2) =
     map pub_batch_id (history w1) @ (if status c' = ''POSTED'' then [batch_id c] else [])"
    using run_chain_history [of s c w1] by simp
  ultimately show ?thesis using e r c by (simp add: process_batch_def)
qed

lemma process_batch_cards:
  "\<exists>c'. cards (process_batch s i b w) = (cards w)(now_id s ''card'' i w \<mapsto> c')
      \<and> card_id c' = now_id s ''card'' i w \<and> batch_id c' = b \<and> status c' = chain_status s b"
proof -
  obtain c w1 where e: "ensure_card s b i w = (c, w1)" by (cases "ensure_card s b i w")
  obtain c' w2 where r: "run_chain s c w1 = (c', w2)" by (cases "run_chain s c w1")
  from e have c: "card_id c = now_id s ''card'' i w" "batch_id c = b" "template_id c = ''sale''"
    "cards w1 = (cards w)(now_id s ''card'' i w \<mapsto> c)"
    using ensure_card_fields [of s b i w] by simp_all
  from r c have st: "status c' = chain_status s b"
    using run_chain_status [of c b s w1] by simp
  from r have ids: "card_id c' = card_id c" "batch_id c' = batch_id c" "cards w2 = cards w1"
    using run_chain_ids [of s c w1] run_chain_frame [of s c w1] by simp_all
  have "cards (process_batch s i b w) = (cards w)(now_id s ''card'' i w \<mapsto> c')"
    using e r c ids by (simp add: process_batch_def)
  with st ids c show ?thesis by auto
qed

lemma process_batches_processed:
  "processed_batches (process_batches s i bs w) = processed_batches w \<union> set bs"
  by (induction bs arbitrary: i w) (simp_all add: process_batch_processed)

lemma process_batches_history:
  "map pub_batch_id (history (process_batches s i bs w)) =
     map pub_batch_id (history w) @ filter (\<lambda>b. chain_status s b = ''POSTED'') bs"
  by (induction bs arbitrary: i w) (simp_all add: process_batch_history)

lemma process_batches_keeps:
  "(\<And>t j. i \<le> j \<Longrightarrow> cid \<noteq> ''card'' @ ''_'' @ py_str t @ ''_'' @ py_str j) \<Longrightarrow>
   cards (process_batches s i bs w) cid = cards w cid"
proof (induction bs arbitrary: i w)
  case Nil
  then show ?case by simp
next
  case (Cons b bs)
  obtain c' where c': "cards (process_batch s i b w) = (cards w)(now_id s ''card'' i w \<mapsto> c')"
    using process_batch_cards [of s i b w] by blast
  have "cid \<noteq> now_id s ''card'' i w"
    using Cons.prems [of i "time_now s w"] by (simp add: now_id_def)
  with c' have "cards (process_batch s i b w) cid = cards w cid" by simp
  moreover have "cards (process_batches s (i + 1) bs (process_batch s i b w)) cid
       = cards (process_batch s i b w) cid"
    by (rule Cons.IH) (use Cons.prems in simp)
  ultimately show ?case by simp
qed

lemma created_ids_form:
  "cid \<in> set (created_ids s i bs w) \<Longrightarrow>
   \<exists>t j. i \<le> j \<and> cid = ''card'' @ ''_'' @ py_str t @ ''_'' @ py_str j"
proof (induction bs arbitrary: i w)
  case Nil
  then show ?case by simp
next
  case (Cons b bs)
  show ?case
  proof (cases "cid = now_id s ''card'' i w")
    case True
    then show ?thesis unfolding now_id_def by blast
  next
    case False
    with Cons.prems have "cid \<in> set (created_ids s (i + 1) bs (process_batch s i b w))" by simp
    from Cons.IH [OF this] obtain t j where "i + 1 \<le> j"
      "cid = ''card'' @ ''_'' @ py_str t @ ''_'' @ py_str j" by blast
    then have "i \<le> j \<and> cid = ''card'' @ ''_'' @ py_str t @ ''_'' @ py_str j" by simp
    then show ?thesis by blast
  qed
qed

lemma now_id_fresh:
  "i < j \<Longrightarrow> now_id s ''card'' i w \<noteq> ''card'' @ ''_'' @ py_str t @ ''_'' @ py_str j"
  unfolding now_id_def using now_id_inj [of "''card''" "time_now s w" i t j] by auto

lemma created_ids_distinct: "distinct (created_ids s i bs w)"
proof (induction bs arbitrary: i w)
  case Nil
  then show ?case by simp
next
  case (Cons b bs)
  have "now_id s ''card'' i w \<notin> set (created_ids s (i + 1) bs (process_batch s i b w))"
  proof
    assume "now_id s ''card'' i w \<in> set (created_ids s (i + 1) bs (process_batch s i b w))"
    from created_ids_form [OF this] obtain t j where "i + 1 \<le> j"
      "now_id s ''card'' i w = ''card'' @ ''_'' @ py_str t @ ''_'' @ py_str j" by blast
    then show False using now_id_fresh [of i j s w t] by simp
  qed
  with Cons.IH show ?case by simp
qed

lemma process_batches_summary:
  "map (card_summary (process_batches s i bs w)) (created_ids s i bs w) =
     map (\<lambda>b. Some (b, chain_status s b)) bs"
proof (induction bs arbitrary: i w)
  case Nil
  then show ?case by simp
next
  case (Cons b bs)
  obtain c' where c': "cards (process_batch s i b w) = (cards w)(now_id s ''card'' i w \<mapsto> c')"
      "batch_id c' = b" "status c' = chain_status s b"
    using process_batch_cards [of s i b w] by blast
  have "cards (process_batches s (i + 1) bs (process_batch s i b w)) (now_id s ''card'' i w)
      = cards (process_batch s i b w) (now_id s ''card'' i w)"
  proof (rule process_batches_keeps)
    fix t j :: int assume "i + 1 \<le> j"
    then have "i < j" by simp
    then show "now_id s ''card'' i w \<noteq> ''card'' @ ''_'' @ py_str t @ ''_'' @ py_str j"
      by (rule now_id_fresh)
  qed
  with c' have "card_summary (process_batches s (i + 1) bs (process_batch s i b w))
      (now_id s ''card'' i w) = Some (b, chain_status s b)"
    by (simp add: card_summary_def)
  with Cons.IH [of "i + 1" "process_batch s i b w"] show ?case by simp
qed

lemma new_batch_ids_Nil: "set bs \<subseteq> processed_batches w \<Longrightarrow> new_batch_ids bs w = []"
  by (auto simp: new_batch_ids_def filter_empty_conv)

lemma new_batch_ids_all: "set bs \<inter> processed_batches w = {} \<Longrightarrow> new_batch_ids bs w = bs"
  by (auto simp: new_batch_ids_def filter_id_conv)

lemma run_once_processed:
  "run_once s w = Inr w' \<Longrightarrow> processed_batches w \<subseteq> processed_batches w'"
  by (auto simp: run_once_def process_batches_processed split: sum.splits)

lemma run_seq_processed:
  "run_seq ss w = Inr w' \<Longrightarrow> processed_batches w \<subseteq> processed_batches w'"
proof (induction ss arbitrary: w)
  case Nil
  then show ?case by simp
next
  case (Cons s ss)
  then obtain w1 where 1: "run_once s w = Inr w1" and 2: "run_seq ss w1 = Inr w'"
    by (auto split: sum.splits)
  from run_once_processed [OF 1] Cons.IH [OF 2] show ?case by blast
qed

lemma length_filter_less_iff: "length (filter P xs) < length xs \<longleftrightarrow> (\<exists>x\<in>set xs. \<not> P x)"
proof (induction xs)
  case Nil
  then show ?case by simp
next
  case (Cons x xs)
  have "length (filter P xs) \<le> length xs" by simp
  with Cons show ?case by (auto simp: less_Suc_eq_le)
qed

lemmas eval_defs = run_once_def new_batch_ids_def process_batch_def ensure_card_def now_id_def
  new_card_def time_now_def py_str_def str_nat.simps digit_char_def get_list_def or_empty_def
  reason_of_def demo_sched_def empty_world_def const_plan_def mixed_plan_def three_batches_def
  demo_card_def chain_defs

section \<open>The claims\<close>

text \<open>
  C1 (idempotency of \<open>run_once\<close>). When the batch source returns the same list on two
  calls in a row, the first call returns a state and the second call returns that very
  state, and assigns no card id: no card is created and \<open>processed_batches\<close> does not
  change. The stage functions of the second call may differ from those of the first.
\<close>

theorem run_once_idempotent:
  assumes "fetch_batches s = Inr bs" and "fetch_batches s' = Inr bs"
  shows "\<exists>w1. run_once s w = Inr w1 \<and> run_once s' w1 = Inr w1 \<and> new_card_ids s' w1 = []"
proof -
  let ?w1 = "process_batches s 1 (new_batch_ids bs w) w"
  have 1: "run_once s w = Inr ?w1" using assms(1) by (simp add: run_once_def)
  have "set bs \<subseteq> processed_batches ?w1"
    by (auto simp: process_batches_processed new_batch_ids_def)
  then have "new_batch_ids bs ?w1 = []" by (rule new_batch_ids_Nil)
  then have "run_once s' ?w1 = Inr ?w1" and "new_card_ids s' ?w1 = []"
    using assms(2) by (simp_all add: run_once_def new_card_ids_def)
  with 1 show ?thesis by blast
qed

theorem run_once_idempotent_witness:
  "fetch_batches (demo_sched mixed_plan three_batches) = Inr three_batches \<and>
   fetch_batches (demo_sched (const_plan ''posted'') three_batches) = Inr three_batches \<and>
   (\<exists>w1. run_once (demo_sched mixed_plan three_batches) empty_world = Inr w1 \<and>
      run_once (demo_sched (const_plan ''posted'') three_batches) w1 = Inr w1 \<and>
      new_card_ids (demo_sched (const_plan ''posted'') three_batches) w1 = [])"
  using run_once_idempotent [of "demo_sched mixed_plan three_batches" three_batches
      "demo_sched (const_plan ''posted'') three_batches" empty_world]
  by (simp add: demo_sched_def)

text \<open>
  C2 (unconditional admission marking). Every batch id that \<open>run_once\<close> admits, that is
  every fetched id not yet in \<open>processed_batches\<close>, is in \<open>processed_batches\<close> when
  \<open>run_once\<close> returns; nothing is assumed about the status its card ended with. It
  stays there through every later sequence of cycles, and no later cycle, whatever its
  batch source returns, counts it among the new batches for which cards are created.
\<close>

theorem admitted_batch_marked:
  assumes "fetch_batches s = Inr bs" and "b \<in> set (new_batch_ids bs w)"
  shows "\<exists>w'. run_once s w = Inr w' \<and> b \<in> processed_batches w' \<and>
           (\<forall>ss w''. run_seq ss w' = Inr w'' \<longrightarrow>
              b \<in> processed_batches w'' \<and> (\<forall>bs'. b \<notin> set (new_batch_ids bs' w'')))"
proof -
  let ?w1 = "process_batches s 1 (new_batch_ids bs w) w"
  have 1: "run_once s w = Inr ?w1" using assms(1) by (simp add: run_once_def)
  have 2: "b \<in> processed_batches ?w1" using assms(2) by (simp add: process_batches_processed)
  have "b \<in> processed_batches w'' \<and> (\<forall>bs'. b \<notin> set (new_batch_ids bs' w''))"
    if "run_seq ss ?w1 = Inr w''" for ss w''
    using run_seq_processed [OF that] 2 by (auto simp: new_batch_ids_def)
  with 1 2 show ?thesis by blast
qed

theorem admitted_batch_marked_witness:
  "fetch_batches (demo_sched mixed_plan three_batches) = Inr three_batches \<and>
   ''batch_2'' \<in> set (new_batch_ids three_batches empty_world) \<and>
   chain_status (demo_sched mixed_plan three_batches) ''batch_2'' = ''FAILED'' \<and>
   (\<exists>w'. run_once (demo_sched mixed_plan three_batches) empty_world = Inr w' \<and>
      ''batch_2'' \<in> processed_batches w' \<and>
      (\<forall>ss w''. run_seq ss w' = Inr w'' \<longrightarrow>
         ''batch_2'' \<in> processed_batches w'' \<and>
         (\<forall>bs'. ''batch_2'' \<notin> set (new_batch_ids bs' w''))))"
proof -
  have 1: "fetch_batches (demo_sched mixed_plan three_batches) = Inr three_batches"
    by (simp add: demo_sched_def)
  have 2: "''batch_2'' \<in> set (new_batch_ids three_batches empty_world)"
    by (simp add: new_batch_ids_def three_batches_def empty_world_def)
  have 3: "chain_status (demo_sched mixed_plan three_batches) ''batch_2'' = ''FAILED''"
    by (simp add: chain_status_def eval_defs)
  from 1 2 3 admitted_batch_marked [OF 1 2] show ?thesis by blast
qed

text \<open>
  C3 (hard-failure handling). Whichever stage function raises, \<open>_run_chain\<close> ends at
  that stage: the card's status is \<open>FAILED\<close>, the exception's text is the last entry of
  \<open>errors\<close>, the log ends with the line of the raising stage, the queue and the history
  are as they were, and the fields written by the stages before it (\<open>photo_files\<close>,
  \<open>photo_urls\<close>, \<open>ai_result\<close>, \<open>mapped_avito\<close>) keep what those stages wrote. One
  conjunct for each of import, generate, map and post; each gives the card and the state
  the chain returns in full.
\<close>

theorem hard_failure_handling:
  "(import_photos s (batch_id c) = Inl e \<longrightarrow>
      run_chain s c w =
        (c\<lparr>status := ''FAILED'',
           logs := logs c @ [isoformat s (clock s (reads w)) @ '' Importing photos''],
           errors := errors c @ [e]\<rparr>,
         w\<lparr>reads := reads w + 1\<rparr>))
 \<and> (import_photos s (batch_id c) = Inr pr \<and>
    ai_client s (get_list (pr_photo_files pr)) (template_id c) = Inl e \<longrightarrow>
      run_chain s c w =
        (c\<lparr>status := ''FAILED'',
           photo_files := get_list (pr_photo_files pr),
           photo_urls := get_list (pr_photo_urls pr),
           logs := logs c @ [isoformat s (clock s (reads w)) @ '' Importing photos'',
                             isoformat s (clock s (reads w + 1)) @ '' Running AI''],
           errors := errors c @ [e]\<rparr>,
         w\<lparr>reads := reads w + 2\<rparr>))
 \<and> (import_photos s (batch_id c) = Inr pr \<and>
    ai_client s (get_list (pr_photo_files pr)) (template_id c) = Inr ar \<and>
    ar_status ar \<noteq> Some ''NEED_ACTION'' \<and>
    mapper s (or_empty (ar_ai_result ar)) (get_list (pr_photo_files pr)) = Inl e \<longrightarrow>
      run_chain s c w =
        (c\<lparr>status := ''FAILED'',
           photo_files := get_list (pr_photo_files pr),
           photo_urls := get_list (pr_photo_urls pr),
           ai_result := ar_ai_result ar,
           logs := logs c @ [isoformat s (clock s (reads w)) @ '' Importing photos'',
                             isoformat s (clock s (reads w + 1)) @ '' Running AI'',
                             isoformat s (clock s (reads w + 2)) @ '' Mapping to Avito''],
           errors := errors c @ [e]\<rparr>,
         w\<lparr>reads := reads w + 3\<rparr>))
 \<and> (import_photos s (batch_id c) = Inr pr \<and>
    ai_client s (get_list (pr_photo_files pr)) (template_id c) = Inr ar \<and>
    ar_status ar \<noteq> Some ''NEED_ACTION'' \<and>
    mapper s (or_empty (ar_ai_result ar)) (get_list (pr_photo_files pr)) = Inr mr \<and>
    mr_status mr \<noteq> Some ''NEED_ACTION'' \<and>
    poster s (or_empty (mr_mapped_avito mr)) (get_list (pr_photo_files pr)) = Inl e \<longrightarrow>
      run_chain s c w =
        (c\<lparr>status := ''FAILED'',
           photo_files := get_list (pr_photo_files pr),
           photo_urls := get_list (pr_photo_urls pr),
           ai_result := ar_ai_result ar,
           mapped_avito := mr_mapped_avito mr,
           logs := logs c @ [isoformat s (clock s (reads w)) @ '' Importing photos'',
                             isoformat s (clock s (reads w + 1)) @ '' Running AI'',
                             isoformat s (clock s (reads w + 2)) @ '' Mapping to Avito'',
                             isoformat s (clock s (reads w + 3)) @ '' Posting to Avito''],
           errors := errors c @ [e]\<rparr>,
         w\<lparr>reads := reads w + 4\<rparr>))"
  by (simp add: chain_defs time_now_def eval_nat_numeral)

theorem hard_failure_handling_witness:
  "import_photos (demo_sched (const_plan ''map raises'') three_batches) (batch_id demo_card) =
     Inr \<lparr>pr_photo_files = Some [''batch_1''], pr_photo_urls = Some [''https://photo/batch_1'']\<rparr> \<and>
   ai_client (demo_sched (const_plan ''map raises'') three_batches) [''batch_1''] (template_id demo_card) =
     Inr \<lparr>ar_status = Some ''AI_READY'', ar_ai_result = Some [(''title'', JStr ''Demo car'')],
          ar_errors = None\<rparr> \<and>
   mapper (demo_sched (const_plan ''map raises'') three_batches) [(''title'', JStr ''Demo car'')]
     [''batch_1''] = Inl ''bad schema'' \<and>
   status (fst (run_chain (demo_sched (const_plan ''map raises'') three_batches) demo_card empty_world)) =
     ''FAILED'' \<and>
   errors (fst (run_chain (demo_sched (const_plan ''map raises'') three_batches) demo_card empty_world)) =
     [''bad schema''] \<and>
   ai_result (fst (run_chain (demo_sched (const_plan ''map raises'') three_batches) demo_card empty_world)) =
     Some [(''title'', JStr ''Demo car'')] \<and>
   photo_files (fst (run_chain (demo_sched (const_plan ''map raises'') three_batches) demo_card empty_world)) =
     [''batch_1''] \<and>
   import_photos (demo_sched (const_plan ''import raises'') three_batches) (batch_id demo_card) =
     Inl ''source unreachable'' \<and>
   status (fst (run_chain (demo_sched (const_plan ''import raises'') three_batches) demo_card empty_world)) =
     ''FAILED'' \<and>
   ai_client (demo_sched (const_plan ''ai raises'') three_batches) [''batch_1''] (template_id demo_card) =
     Inl ''ai timeout'' \<and>
   errors (fst (run_chain (demo_sched (const_plan ''ai raises'') three_batches) demo_card empty_world)) =
     [''ai timeout''] \<and>
   poster (demo_sched (const_plan ''post raises'') three_batches) [(''title'', JStr ''Demo car'')]
     [''batch_1''] = Inl ''browser crashed'' \<and>
   mapped_avito (fst (run_chain (demo_sched (const_plan ''post raises'') three_batches) demo_card empty_world)) =
     Some [(''title'', JStr ''Demo car'')] \<and>
   status (fst (run_chain (demo_sched (const_plan ''post raises'') three_batches) demo_card empty_world)) =
     ''FAILED''"
  using
    hard_failure_handling [of "demo_sched (const_plan ''map raises'') three_batches" demo_card
      "''bad schema'' " empty_world
      "\<lparr>pr_photo_files = Some [''batch_1''], pr_photo_urls = Some [''https://photo/batch_1'']\<rparr>"
      "\<lparr>ar_status = Some ''AI_READY'', ar_ai_result = Some [(''title'', JStr ''Demo car'')],
        ar_errors = None\<rparr>"
      "\<lparr>mr_status = None, mr_mapped_avito = None, mr_errors = None\<rparr>"]
    hard_failure_handling [of "demo_sched (const_plan ''import raises'') three_batches" demo_card
      "''source unreachable''" empty_world
      "\<lparr>pr_photo_files = Some [''batch_1''], pr_photo_urls = Some [''https://photo/batch_1'']\<rparr>"
      "\<lparr>ar_status = Some ''AI_READY'', ar_ai_result = Some [(''title'', JStr ''Demo car'')],
        ar_errors = None\<rparr>"
      "\<lparr>mr_status = None, mr_mapped_avito = None, mr_errors = None\<rparr>"]
    hard_failure_handling [of "demo_sched (const_plan ''ai raises'') three_batches" demo_card
      "''ai timeout''" empty_world
      "\<lparr>pr_photo_files = Some [''batch_1''], pr_photo_urls = Some [''https://photo/batch_1'']\<rparr>"
      "\<lparr>ar_status = Some ''AI_READY'', ar_ai_result = Some [(''title'', JStr ''Demo car'')],
        ar_errors = None\<rparr>"
      "\<lparr>mr_status = None, mr_mapped_avito = None, mr_errors = None\<rparr>"]
    hard_failure_handling [of "demo_sched (const_plan ''post raises'') three_batches" demo_card
      "''browser crashed''" empty_world
      "\<lparr>pr_photo_files = Some [''batch_1''], pr_photo_urls = Some [''https://photo/batch_1'']\<rparr>"
      "\<lparr>ar_status = Some ''AI_READY'', ar_ai_result = Some [(''title'', JStr ''Demo car'')],
        ar_errors = None\<rparr>"
      "\<lparr>mr_status = Some ''READY_TO_POST'', mr_mapped_avito = Some [(''title'', JStr ''Demo car'')],
        mr_errors = None\<rparr>"]
  by (simp add: demo_sched_def const_plan_def demo_card_def new_card_def empty_world_def
      get_list_def or_empty_def)

text \<open>
  C4 (per-card failure isolation). A cycle over \<open>[b1, b2, b3]\<close>, none processed before,
  in which a stage function raises for \<open>b2\<close>, returns normally and creates three cards
  under three different ids: the card of \<open>b2\<close> is \<open>FAILED\<close>, and the cards of \<open>b1\<close>
  and \<open>b3\<close> have the statuses of the two cards that a cycle over \<open>[b1, b3]\<close> creates
  from the same starting state with the same stage functions.
\<close>

theorem failure_isolation:
  assumes "fetch_batches s = Inr [b1, b2, b3]" and "fetch_batches s' = Inr [b1, b3]"
    and "import_photos s' = import_photos s" and "ai_client s' = ai_client s"
    and "mapper s' = mapper s" and "poster s' = poster s"
    and "{b1, b2, b3} \<inter> processed_batches w = {}"
    and "chain_exception s b2 = Some e"
  shows "\<exists>wA wB. run_once s w = Inr wA \<and> run_once s' w = Inr wB \<and>
           distinct (new_card_ids s w) \<and>
           map (card_summary wA) (new_card_ids s w) =
             [Some (b1, chain_status s b1), Some (b2, ''FAILED''), Some (b3, chain_status s b3)] \<and>
           map (card_summary wB) (new_card_ids s' w) =
             [Some (b1, chain_status s b1), Some (b3, chain_status s b3)]"
proof -
  let ?wA = "process_batches s 1 [b1, b2, b3] w" and ?wB = "process_batches s' 1 [b1, b3] w"
  from assms(7) have n: "new_batch_ids [b1, b2, b3] w = [b1, b2, b3]"
      "new_batch_ids [b1, b3] w = [b1, b3]"
    by (simp_all add: new_batch_ids_def)
  have A: "run_once s w = Inr ?wA" and B: "run_once s' w = Inr ?wB"
    using assms(1,2) n by (simp_all add: run_once_def)
  have idsA: "new_card_ids s w = created_ids s 1 [b1, b2, b3] w"
    and idsB: "new_card_ids s' w = created_ids s' 1 [b1, b3] w"
    using assms(1,2) n by (simp_all add: new_card_ids_def)
  have cs: "chain_status s' b = chain_status s b" for b
    using assms(3-6) by (rule chain_status_cong)
  have f: "chain_status s b2 = ''FAILED''"
    using assms(8) by (rule chain_exception_failed)
  have "distinct (new_card_ids s w)"
    unfolding idsA by (rule created_ids_distinct)
  moreover have "map (card_summary ?wA) (new_card_ids s w) =
      [Some (b1, chain_status s b1), Some (b2, ''FAILED''), Some (b3, chain_status s b3)]"
    unfolding idsA process_batches_summary using f by simp
  moreover have "map (card_summary ?wB) (new_card_ids s' w) =
      [Some (b1, chain_status s b1), Some (b3, chain_status s b3)]"
    unfolding idsB process_batches_summary using cs by simp
  ultimately show ?thesis using A B
    by (intro exI [of _ ?wA] exI [of _ ?wB] conjI)
qed

theorem failure_isolation_witness:
  "fetch_batches (demo_sched mixed_plan three_batches) = Inr [''batch_1'', ''batch_2'', ''batch_3''] \<and>
   fetch_batches (demo_sched mixed_plan [''batch_1'', ''batch_3'']) = Inr [''batch_1'', ''batch_3''] \<and>
   {''batch_1'', ''batch_2'', ''batch_3''} \<inter> processed_batches empty_world = {} \<and>
   chain_exception (demo_sched mixed_plan three_batches) ''batch_2'' = Some ''source unreachable'' \<and>
   (\<exists>wA wB. run_once (demo_sched mixed_plan three_batches) empty_world = Inr wA \<and>
      run_once (demo_sched mixed_plan [''batch_1'', ''batch_3'']) empty_world = Inr wB \<and>
      distinct (new_card_ids (demo_sched mixed_plan three_batches) empty_world) \<and>
      map (card_summary wA) (new_card_ids (demo_sched mixed_plan three_batches) empty_world) =
        [Some (''batch_1'', ''POSTED''), Some (''batch_2'', ''FAILED''), Some (''batch_3'', ''POSTED'')] \<and>
      map (card_summary wB) (new_card_ids (demo_sched mixed_plan [''batch_1'', ''batch_3'']) empty_world) =
        [Some (''batch_1'', ''POSTED''), Some (''batch_3'', ''POSTED'')])"
proof -
  have 1: "fetch_batches (demo_sched mixed_plan three_batches) = Inr [''batch_1'', ''batch_2'', ''batch_3'']"
    and 2: "fetch_batches (demo_sched mixed_plan [''batch_1'', ''batch_3'']) = Inr [''batch_1'', ''batch_3'']"
    and 3: "import_photos (demo_sched mixed_plan [''batch_1'', ''batch_3'']) =
              import_photos (demo_sched mixed_plan three_batches)"
    and 4: "ai_client (demo_sched mixed_plan [''batch_1'', ''batch_3'']) =
              ai_client (demo_sched mixed_plan three_batches)"
    and 5: "mapper (demo_sched mixed_plan [''batch_1'', ''batch_3'']) =
              mapper (demo_sched mixed_plan three_batches)"
    and 6: "poster (demo_sched mixed_plan [''batch_1'', ''batch_3'']) =
              poster (demo_sched mixed_plan three_batches)"
    by (simp_all add: demo_sched_def three_batches_def)
  have 7: "{''batch_1'', ''batch_2'', ''batch_3''} \<inter> processed_batches empty_world = {}"
    by (simp add: empty_world_def)
  have 8: "chain_exception (demo_sched mixed_plan three_batches) ''batch_2'' = Some ''source unreachable''"
    by (simp add: chain_exception_def demo_sched_def mixed_plan_def)
  have 9: "chain_status (demo_sched mixed_plan three_batches) ''batch_1'' = ''POSTED''"
    and 10: "chain_status (demo_sched mixed_plan three_batches) ''batch_3'' = ''POSTED''"
    by (simp_all add: chain_status_def eval_defs)
  have "\<exists>wA wB. run_once (demo_sched mixed_plan three_batches) empty_world = Inr wA \<and>
      run_once (demo_sched mixed_plan [''batch_1'', ''batch_3'']) empty_world = Inr wB \<and>
      distinct (new_card_ids (demo_sched mixed_plan three_batches) empty_world) \<and>
      map (card_summary wA) (new_card_ids (demo_sched mixed_plan three_batches) empty_world) =
        [Some (''batch_1'', ''POSTED''), Some (''batch_2'', ''FAILED''), Some (''batch_3'', ''POSTED'')] \<and>
      map (card_summary wB) (new_card_ids (demo_sched mixed_plan [''batch_1'', ''batch_3'']) empty_world) =
        [Some (''batch_1'', ''POSTED''), Some (''batch_3'', ''POSTED'')]"
    using failure_isolation [OF 1 2 3 4 5 6 7 8] unfolding 9 10 .
  with 1 2 7 8 show ?thesis by (intro conjI)
qed

text \<open>
  C5 (need-action round trip). \<open>add_need_action\<close> appends exactly one item, carrying the
  card's id, and so does every diversion: a card that leaves the chain with status
  \<open>NEED_ACTION\<close> has put exactly one item with its id at the end of the queue.
  \<open>resolve_need_action\<close> keeps the items of the other cards, in their order, and removes
  all items of the given card id; it returns true exactly when the queue held an item of
  that id; and for an id with no item it returns false and the state it was given.
\<close>

theorem need_action_round_trip:
  fixes st :: "'a FlowState_scheme" and w :: world
  shows
  "need_action (add_need_action c rsn st) =
     need_action st @ [\<lparr>na_card_id = card_id c, na_batch_id = batch_id c, reason = rsn,
                         requires_manual_confirmation = True\<rparr>]
 \<and> (status (fst (run_chain s c w)) = ''NEED_ACTION'' \<longrightarrow>
      (\<exists>item. need_action (snd (run_chain s c w)) = need_action w @ [item]
         \<and> na_card_id item = card_id c))
 \<and> snd (resolve_need_action cid st) =
      st\<lparr>need_action := filter (\<lambda>item. na_card_id item \<noteq> cid) (need_action st)\<rparr>
 \<and> (fst (resolve_need_action cid st) \<longleftrightarrow> (\<exists>item\<in>set (need_action st). na_card_id item = cid))
 \<and> ((\<forall>item\<in>set (need_action st). na_card_id item \<noteq> cid) \<longrightarrow>
      resolve_need_action cid st = (False, st))"
proof (intro conjI)
  show "need_action (add_need_action c rsn st) =
     need_action st @ [\<lparr>na_card_id = card_id c, na_batch_id = batch_id c, reason = rsn,
                         requires_manual_confirmation = True\<rparr>]"
    by (simp add: add_need_action_def)
  show "status (fst (run_chain s c w)) = ''NEED_ACTION'' \<longrightarrow>
      (\<exists>item. need_action (snd (run_chain s c w)) = need_action w @ [item]
         \<and> na_card_id item = card_id c)"
    by (simp add: chain_defs split: sum.splits prod.splits)
  show "snd (resolve_need_action cid st) =
      st\<lparr>need_action := filter (\<lambda>item. na_card_id item \<noteq> cid) (need_action st)\<rparr>"
    by (simp add: resolve_need_action_def Let_def)
  show "fst (resolve_need_action cid st) \<longleftrightarrow> (\<exists>item\<in>set (need_action st). na_card_id item = cid)"
    by (simp add: resolve_need_action_def Let_def length_filter_less_iff)
  show "(\<forall>item\<in>set (need_action st). na_card_id item \<noteq> cid) \<longrightarrow>
      resolve_need_action cid st = (False, st)"
    by (simp add: resolve_need_action_def Let_def filter_id_conv)
qed

theorem need_action_round_trip_witness:
  "status (fst (run_chain (demo_sched (const_plan ''post need action'') three_batches)
      demo_card empty_world)) = ''NEED_ACTION'' \<and>
   (\<exists>item. need_action (snd (run_chain (demo_sched (const_plan ''post need action'') three_batches)
      demo_card empty_world)) = need_action empty_world @ [item] \<and>
      na_card_id item = card_id demo_card) \<and>
   ''card_100_9'' \<notin> set (map na_card_id (need_action demo_queue)) \<and>
   resolve_need_action ''card_100_9'' demo_queue = (False, demo_queue) \<and>
   fst (resolve_need_action ''card_100_1'' demo_queue) \<and>
   need_action (snd (resolve_need_action ''card_100_1'' demo_queue)) =
     [\<lparr>na_card_id = ''card_100_2'', na_batch_id = ''batch_2'', reason = ''Mapping failed'',
        requires_manual_confirmation = True\<rparr>]"
proof -
  have 1: "status (fst (run_chain (demo_sched (const_plan ''post need action'') three_batches)
      demo_card empty_world)) = ''NEED_ACTION''"
    by (simp add: eval_defs)
  have 2: "\<forall>item\<in>set (need_action demo_queue). na_card_id item \<noteq> ''card_100_9''"
    by (simp add: demo_queue_def)
  note a = need_action_round_trip [of demo_card "[]" demo_queue
      "demo_sched (const_plan ''post need action'') three_batches" empty_world "''card_100_9''"]
  note b = need_action_round_trip [of demo_card "[]" demo_queue
      "demo_sched (const_plan ''post need action'') three_batches" empty_world "''card_100_1''"]
  from a 1 have 3: "\<exists>item. need_action (snd (run_chain
      (demo_sched (const_plan ''post need action'') three_batches) demo_card empty_world)) =
        need_action empty_world @ [item] \<and> na_card_id item = card_id demo_card"
    by blast
  from a 2 have 4: "resolve_need_action ''card_100_9'' demo_queue = (False, demo_queue)"
    by blast
  from b have 5: "fst (resolve_need_action ''card_100_1'' demo_queue)"
    by (simp add: demo_queue_def)
  from b have 6: "need_action (snd (resolve_need_action ''card_100_1'' demo_queue)) =
     [\<lparr>na_card_id = ''card_100_2'', na_batch_id = ''batch_2'', reason = ''Mapping failed'',
        requires_manual_confirmation = True\<rparr>]"
    by (simp add: demo_queue_def)
  have 7: "''card_100_9'' \<notin> set (map na_card_id (need_action demo_queue))"
    by (simp add: demo_queue_def)
  from 1 3 4 5 6 7 show ?thesis by blast
qed

text \<open>
  C6 (history ordering). When no fetched batch was processed before, the publication
  records in \<open>history\<close> after \<open>run_once\<close> are those it held before, followed by one
  record for each fetched batch whose chain ends in \<open>POSTED\<close>, in the order of the
  fetched list.
\<close>

theorem history_order:
  assumes "fetch_batches s = Inr bs" and "set bs \<inter> processed_batches w = {}"
  shows "\<exists>w'. run_once s w = Inr w' \<and>
           map pub_batch_id (history w') =
             map pub_batch_id (history w) @ filter (\<lambda>b. chain_status s b = ''POSTED'') bs"
  using assms by (simp add: run_once_def new_batch_ids_all process_batches_history)

theorem history_order_witness:
  "fetch_batches (demo_sched mixed_plan three_batches) = Inr three_batches \<and>
   set three_batches \<inter> processed_batches empty_world = {} \<and>
   (\<exists>w'. run_once (demo_sched mixed_plan three_batches) empty_world = Inr w' \<and>
      map pub_batch_id (history w') = [''batch_1'', ''batch_3''])"
proof -
  have 1: "fetch_batches (demo_sched mixed_plan three_batches) = Inr three_batches"
    by (simp add: demo_sched_def)
  have 2: "set three_batches \<inter> processed_batches empty_world = {}"
    by (simp add: empty_world_def)
  have 3: "chain_status (demo_sched mixed_plan three_batches) ''batch_1'' = ''POSTED''"
    and 4: "chain_status (demo_sched mixed_plan three_batches) ''batch_2'' = ''FAILED''"
    and 5: "chain_status (demo_sched mixed_plan three_batches) ''batch_3'' = ''POSTED''"
    by (simp_all add: chain_status_def eval_defs)
  have 6: "history empty_world = []" by (simp add: empty_world_def)
  have "\<exists>w'. run_once (demo_sched mixed_plan three_batches) empty_world = Inr w' \<and>
      map pub_batch_id (history w') = [''batch_1'', ''batch_3'']"
    using 3 4 5 6 history_order [OF 1 2] by (simp add: three_batches_def)
  with 1 2 show ?thesis by blast
qed

text \<open>
  C7 (card id uniqueness). \<open>_now_id\<close> builds the id from the clock's whole second and
  the position of the batch within its own cycle, which starts again at 1 in every
  cycle. Two cycles within the same second therefore give their first cards the same id:
  here the first cycle stores the card of batch \<open>a\<close> under \<open>card_100_1\<close>, and the
  second cycle, in which only \<open>b\<close> is new, stores the card of \<open>b\<close> under that id
  again, after which \<open>card_100_1\<close> is the only id in \<open>cards\<close>.
\<close>

theorem card_id_reused_across_cycles:
  "run_once (demo_sched (const_plan ''posted'') [''a'']) empty_world =
     Inr (process_batches (demo_sched (const_plan ''posted'') [''a'']) 1 [''a''] empty_world) \<and>
   new_card_ids (demo_sched (const_plan ''posted'') [''a'']) empty_world = [''card_100_1''] \<and>
   new_card_ids (demo_sched (const_plan ''posted'') [''a'', ''b''])
     (process_batches (demo_sched (const_plan ''posted'') [''a'']) 1 [''a''] empty_world) =
     [''card_100_1''] \<and>
   batch_of_card (run_seq [demo_sched (const_plan ''posted'') [''a'']] empty_world)
     ''card_100_1'' = Some ''a'' \<and>
   batch_of_card (run_seq [demo_sched (const_plan ''posted'') [''a''],
                           demo_sched (const_plan ''posted'') [''a'', ''b'']] empty_world)
     ''card_100_1'' = Some ''b'' \<and>
   stored_ids (run_seq [demo_sched (const_plan ''posted'') [''a''],
                        demo_sched (const_plan ''posted'') [''a'', ''b'']] empty_world)
     = {''card_100_1''}"
  by (simp add: batch_of_card_def stored_ids_def new_card_ids_def eval_defs)

text \<open>
  C8 (post_url only on success), as the code has it. \<open>_run_chain\<close> copies the
  \<open>post_url\<close> of the poster's result into the card before it looks at the result's
  status. So a card that entered the chain without a \<open>post_url\<close> has one afterwards
  only if the posting stage was reached and the poster returned a result, and it is that
  result's \<open>post_url\<close>, whatever status came with it. If the poster reports a
  \<open>post_url\<close> only together with the status \<open>POSTED\<close>, then a card with a \<open>post_url\<close>
  has status \<open>POSTED\<close>.
\<close>

theorem post_url_from_poster:
  assumes "post_url c = None"
  shows "(post_url (fst (run_chain s c w)) \<noteq> None \<longrightarrow>
          (\<exists>po. poster s (or_empty (mapped_avito (fst (run_chain s c w))))
                   (photo_files (fst (run_chain s c w))) = Inr po
             \<and> po_post_url po = post_url (fst (run_chain s c w))))
       \<and> ((\<forall>d fs po. poster s d fs = Inr po \<and> po_post_url po \<noteq> None \<longrightarrow> po_status po = Some ''POSTED'') \<longrightarrow>
          post_url (fst (run_chain s c w)) \<noteq> None \<longrightarrow> status (fst (run_chain s c w)) = ''POSTED'')"
proof (intro conjI)
  show "post_url (fst (run_chain s c w)) \<noteq> None \<longrightarrow>
          (\<exists>po. poster s (or_empty (mapped_avito (fst (run_chain s c w))))
                   (photo_files (fst (run_chain s c w))) = Inr po
             \<and> po_post_url po = post_url (fst (run_chain s c w)))"
    using assms by (auto simp: chain_defs split: sum.splits)
  show "(\<forall>d fs po. poster s d fs = Inr po \<and> po_post_url po \<noteq> None \<longrightarrow> po_status po = Some ''POSTED'') \<longrightarrow>
          post_url (fst (run_chain s c w)) \<noteq> None \<longrightarrow> status (fst (run_chain s c w)) = ''POSTED''"
  proof (intro impI)
    assume "\<forall>d fs po. poster s d fs = Inr po \<and> po_post_url po \<noteq> None \<longrightarrow> po_status po = Some ''POSTED''"
    then have contract: "po_status po = Some ''POSTED''"
      if "poster s d fs = Inr po" and "po_post_url po = Some y" for d fs po y
      using that by simp
    assume "post_url (fst (run_chain s c w)) \<noteq> None"
    with assms show "status (fst (run_chain s c w)) = ''POSTED''"
      by (auto simp: chain_defs split: sum.splits if_splits dest: contract)
  qed
qed

theorem post_url_from_poster_witness:
  "post_url demo_card = None \<and>
   post_url (fst (run_chain (demo_sched (const_plan ''posted'') three_batches) demo_card empty_world)) =
     Some ''https://avito.ru/item/batch_1'' \<and>
   status (fst (run_chain (demo_sched (const_plan ''posted'') three_batches) demo_card empty_world)) =
     ''POSTED''"
proof -
  have 1: "post_url demo_card = None"
    by (simp add: demo_card_def new_card_def)
  have 2: "post_url (fst (run_chain (demo_sched (const_plan ''posted'') three_batches)
      demo_card empty_world)) = Some ''https://avito.ru/item/batch_1''"
    by (simp add: eval_defs)
  have 3: "\<forall>d fs po. poster (demo_sched (const_plan ''posted'') three_batches) d fs = Inr po \<and>
      po_post_url po \<noteq> None \<longrightarrow> po_status po = Some ''POSTED''"
    by (auto simp: demo_sched_def const_plan_def)
  from post_url_from_poster [OF 1, of "demo_sched (const_plan ''posted'') three_batches" empty_world]
    2 3
  have "status (fst (run_chain (demo_sched (const_plan ''posted'') three_batches)
      demo_card empty_world)) = ''POSTED''"
    by simp
  with 1 2 show ?thesis by blast
qed

text \<open>
  C8 as the specification words it fails: a poster that asks for manual action and
  reports a URL leaves the card in \<open>NEED_ACTION\<close> with that URL as its \<open>post_url\<close>.
\<close>

theorem post_url_with_need_action:
  "status (fst (run_chain (demo_sched (const_plan ''post need action with url'') three_batches)
      demo_card empty_world)) = ''NEED_ACTION'' \<and>
   post_url (fst (run_chain (demo_sched (const_plan ''post need action with url'') three_batches)
      demo_card empty_world)) = Some ''https://avito.ru/draft''"
  by (simp add: eval_defs)

text \<open>
  C9 (one card per batch). \<open>run_once\<close> filters the fetched list against
  \<open>processed_batches\<close> once, before the loop, so an id that the batch source returns
  twice in one result is admitted twice: two cards are stored for batch \<open>a\<close>.
\<close>

theorem duplicate_batch_two_cards:
  "new_card_ids (demo_sched (const_plan ''posted'') [''a'', ''a'']) empty_world =
     [''card_100_1'', ''card_100_2''] \<and>
   batch_of_card (run_once (demo_sched (const_plan ''posted'') [''a'', ''a'']) empty_world)
     ''card_100_1'' = Some ''a'' \<and>
   batch_of_card (run_once (demo_sched (const_plan ''posted'') [''a'', ''a'']) empty_world)
     ''card_100_2'' = Some ''a'' \<and>
   stored_ids (run_once (demo_sched (const_plan ''posted'') [''a'', ''a'']) empty_world)
     = {''card_100_1'', ''card_100_2''}"
  by (simp add: batch_of_card_def stored_ids_def new_card_ids_def eval_defs insert_commute)

text \<open>
  C10 (lenient generate and map stages). When the generation stage returns a result
  whose status is not the string \<open>NEED_ACTION\<close> (\<open>FAILED\<close>, any other string, or no
  status at all), the chain goes on exactly as the mapping stage run on the card with
  \<open>ai_result\<close> stored and status \<open>AI_READY\<close>; likewise the mapping stage hands the
  card on to the posting stage with status \<open>READY_TO_POST\<close>. Only the posting stage
  has a third outcome: a status other than \<open>POSTED\<close> and \<open>NEED_ACTION\<close> makes the card
  \<open>FAILED\<close>. The last conjunct follows a card through the whole chain: its final status
  is decided by the poster's status alone.
\<close>

theorem lenient_stage_status:
  "(ai_client s (photo_files c) (template_id c) = Inr ar \<and> ar_status ar \<noteq> Some ''NEED_ACTION'' \<longrightarrow>
      ai_stage s c w =
        map_stage s (c\<lparr>logs := logs c @ [isoformat s (clock s (reads w)) @ '' Running AI''],
                       ai_result := ar_ai_result ar, status := ''AI_READY''\<rparr>)
          (w\<lparr>reads := reads w + 1\<rparr>))
 \<and> (mapper s (or_empty (ai_result c)) (photo_files c) = Inr mr \<and> mr_status mr \<noteq> Some ''NEED_ACTION'' \<longrightarrow>
      map_stage s c w =
        post_stage s (c\<lparr>logs := logs c @ [isoformat s (clock s (reads w)) @ '' Mapping to Avito''],
                        mapped_avito := mr_mapped_avito mr, status := ''READY_TO_POST''\<rparr>)
          (w\<lparr>reads := reads w + 1\<rparr>))
 \<and> (poster s (or_empty (mapped_avito c)) (photo_files c) = Inr po \<and>
    po_status po \<noteq> Some ''POSTED'' \<and> po_status po \<noteq> Some ''NEED_ACTION'' \<longrightarrow>
      status (fst (post_stage s c w)) = ''FAILED'' \<and>
      errors (fst (post_stage s c w)) = errors c @ get_list (po_errors po) \<and>
      snd (post_stage s c w) = w\<lparr>reads := reads w + 1\<rparr>)
 \<and> (import_photos s (batch_id c) = Inr pr \<and>
    ai_client s (get_list (pr_photo_files pr)) (template_id c) = Inr ar \<and>
    ar_status ar \<noteq> Some ''NEED_ACTION'' \<and>
    mapper s (or_empty (ar_ai_result ar)) (get_list (pr_photo_files pr)) = Inr mr \<and>
    mr_status mr \<noteq> Some ''NEED_ACTION'' \<and>
    poster s (or_empty (mr_mapped_avito mr)) (get_list (pr_photo_files pr)) = Inr po \<longrightarrow>
      ai_result (fst (run_chain s c w)) = ar_ai_result ar \<and>
      mapped_avito (fst (run_chain s c w)) = mr_mapped_avito mr \<and>
      status (fst (run_chain s c w)) =
        (if po_status po = Some ''POSTED'' then ''POSTED''
         else if po_status po = Some ''NEED_ACTION'' then ''NEED_ACTION'' else ''FAILED''))"
proof (intro conjI)
  show "ai_client s (photo_files c) (template_id c) = Inr ar \<and> ar_status ar \<noteq> Some ''NEED_ACTION'' \<longrightarrow>
      ai_stage s c w =
        map_stage s (c\<lparr>logs := logs c @ [isoformat s (clock s (reads w)) @ '' Running AI''],
                       ai_result := ar_ai_result ar, status := ''AI_READY''\<rparr>)
          (w\<lparr>reads := reads w + 1\<rparr>)"
    by (simp add: ai_stage_def card_log_def tick_def time_now_def)
  show "mapper s (or_empty (ai_result c)) (photo_files c) = Inr mr \<and> mr_status mr \<noteq> Some ''NEED_ACTION'' \<longrightarrow>
      map_stage s c w =
        post_stage s (c\<lparr>logs := logs c @ [isoformat s (clock s (reads w)) @ '' Mapping to Avito''],
                        mapped_avito := mr_mapped_avito mr, status := ''READY_TO_POST''\<rparr>)
          (w\<lparr>reads := reads w + 1\<rparr>)"
    by (simp add: map_stage_def card_log_def tick_def time_now_def)
  show "poster s (or_empty (mapped_avito c)) (photo_files c) = Inr po \<and>
    po_status po \<noteq> Some ''POSTED'' \<and> po_status po \<noteq> Some ''NEED_ACTION'' \<longrightarrow>
      status (fst (post_stage s c w)) = ''FAILED'' \<and>
      errors (fst (post_stage s c w)) = errors c @ get_list (po_errors po) \<and>
      snd (post_stage s c w) = w\<lparr>reads := reads w + 1\<rparr>"
    by (simp add: post_stage_def card_log_def tick_def time_now_def)
  show "import_photos s (batch_id c) = Inr pr \<and>
    ai_client s (get_list (pr_photo_files pr)) (template_id c) = Inr ar \<and>
    ar_status ar \<noteq> Some ''NEED_ACTION'' \<and>
    mapper s (or_empty (ar_ai_result ar)) (get_list (pr_photo_files pr)) = Inr mr \<and>
    mr_status mr \<noteq> Some ''NEED_ACTION'' \<and>
    poster s (or_empty (mr_mapped_avito mr)) (get_list (pr_photo_files pr)) = Inr po \<longrightarrow>
      ai_result (fst (run_chain s c w)) = ar_ai_result ar \<and>
      mapped_avito (fst (run_chain s c w)) = mr_mapped_avito mr \<and>
      status (fst (run_chain s c w)) =
        (if po_status po = Some ''POSTED'' then ''POSTED''
         else if po_status po = Some ''NEED_ACTION'' then ''NEED_ACTION'' else ''FAILED'')"
    by (simp add: chain_defs)
qed

theorem lenient_stage_status_witness:
  "ai_client (demo_sched (const_plan ''odd statuses'') three_batches) [''batch_1''] (template_id demo_card) =
     Inr \<lparr>ar_status = Some ''FAILED'', ar_ai_result = Some [(''title'', JStr ''Demo car'')],
          ar_errors = None\<rparr> \<and>
   mapper (demo_sched (const_plan ''odd statuses'') three_batches) [(''title'', JStr ''Demo car'')]
     [''batch_1''] =
     Inr \<lparr>mr_status = None, mr_mapped_avito = Some [(''title'', JStr ''Demo car'')], mr_errors = None\<rparr> \<and>
   status (fst (run_chain (demo_sched (const_plan ''odd statuses'') three_batches) demo_card empty_world)) =
     ''POSTED'' \<and>
   ai_result (fst (run_chain (demo_sched (const_plan ''odd statuses'') three_batches) demo_card empty_world)) =
     Some [(''title'', JStr ''Demo car'')] \<and>
   poster (demo_sched (const_plan ''post failed'') three_batches) (or_empty (mapped_avito demo_card))
     (photo_files demo_card) =
     Inr \<lparr>po_status = Some ''FAILED'', po_post_url = None, po_errors = Some [''Posting failed'']\<rparr> \<and>
   status (fst (post_stage (demo_sched (const_plan ''post failed'') three_batches) demo_card empty_world)) =
     ''FAILED''"
  using
    lenient_stage_status [of "demo_sched (const_plan ''odd statuses'') three_batches" demo_card
      "\<lparr>ar_status = Some ''FAILED'', ar_ai_result = Some [(''title'', JStr ''Demo car'')],
        ar_errors = None\<rparr>"
      empty_world
      "\<lparr>mr_status = None, mr_mapped_avito = Some [(''title'', JStr ''Demo car'')], mr_errors = None\<rparr>"
      "\<lparr>po_status = Some ''POSTED'', po_post_url = Some ''https://avito.ru/item/batch_1'',
        po_errors = Some []\<rparr>"
      "\<lparr>pr_photo_files = Some [''batch_1''], pr_photo_urls = Some [''https://photo/batch_1'']\<rparr>"]
    lenient_stage_status [of "demo_sched (const_plan ''post failed'') three_batches" demo_card
      "\<lparr>ar_status = Some ''FAILED'', ar_ai_result = Some [(''title'', JStr ''Demo car'')],
        ar_errors = None\<rparr>"
      empty_world
      "\<lparr>mr_status = None, mr_mapped_avito = Some [(''title'', JStr ''Demo car'')], mr_errors = None\<rparr>"
      "\<lparr>po_status = Some ''FAILED'', po_post_url = None, po_errors = Some [''Posting failed'']\<rparr>"
      "\<lparr>pr_photo_files = Some [''batch_1''], pr_photo_urls = Some [''https://photo/batch_1'']\<rparr>"]
  by (simp add: demo_sched_def const_plan_def demo_card_def new_card_def empty_world_def
      get_list_def or_empty_def)

end
